theory Spec2Isabelle
  imports Complex_Main "HOL-Library.Sublist"
begin

section \<open>Calendar dates and timestamps\<close>

text \<open>
  The program works on \<^verbatim>\<open>datetime.datetime\<close> values and returns \<^verbatim>\<open>datetime.date\<close>
  values. A date is a year, a month and a day of the proleptic Gregorian calendar, in the
  range 0001-01-01 .. 9999-12-31; a timestamp is a date with a time of day (in Python
  \<^verbatim>\<open>datetime\<close> is a subclass of \<^verbatim>\<open>date\<close>, here a record extension).
\<close>

record date =
  year :: int
  month :: int
  day :: int

record datetime = date +
  hour :: int
  minute :: int
  second :: int
  microsecond :: int

text \<open>
  The exceptions of Python that matter here. \<^verbatim>\<open>ValueError\<close> carries the position
  that pandas names in its message, \<^verbatim>\<open>KeyError\<close> the name of the column.
  \<^verbatim>\<open>FileNotFoundError\<close> is Python's error for a file that does not exist; no line of
  the program raises it.
\<close>

datatype py_error =
    OverflowError
  | ValueError nat
  | KeyError string
  | IndexError
  | FileNotFoundError

definition MINYEAR :: int where
  "MINYEAR = 1"

definition MAXYEAR :: int where
  "MAXYEAR = 9999"

definition is_leap :: "int \<Rightarrow> bool" where
  "is_leap y = (y mod 4 = 0 \<and> (y mod 100 \<noteq> 0 \<or> y mod 400 = 0))"

definition days_in_month :: "int \<Rightarrow> int \<Rightarrow> int" where
  "days_in_month y m =
     (if m = 2 then (if is_leap y then 29 else 28)
      else if m = 4 \<or> m = 6 \<or> m = 9 \<or> m = 11 then 30
      else 31)"

definition days_before_year :: "int \<Rightarrow> int" where
  "days_before_year y = (y - 1) * 365 + (y - 1) div 4 - (y - 1) div 100 + (y - 1) div 400"

definition days_before_month :: "int \<Rightarrow> int \<Rightarrow> int" where
  "days_before_month y m =
     (if m = 1 then 0 else if m = 2 then 31 else if m = 3 then 59 else if m = 4 then 90
      else if m = 5 then 120 else if m = 6 then 151 else if m = 7 then 181
      else if m = 8 then 212 else if m = 9 then 243 else if m = 10 then 273
      else if m = 11 then 304 else 334)
     + (if 2 < m \<and> is_leap y then 1 else 0)"

text \<open>\<^verbatim>\<open>date.toordinal()\<close>: the number of the day, 0001-01-01 being day 1.\<close>

definition toordinal :: "'a date_scheme \<Rightarrow> int" where
  "toordinal d = days_before_year (year d) + days_before_month (year d) (month d) + day d"

definition valid_date :: "'a date_scheme \<Rightarrow> bool" where
  "valid_date d =
     (MINYEAR \<le> year d \<and> year d \<le> MAXYEAR \<and> 1 \<le> month d \<and> month d \<le> 12 \<and>
      1 \<le> day d \<and> day d \<le> days_in_month (year d) (month d))"

definition valid_datetime :: "datetime \<Rightarrow> bool" where
  "valid_datetime t =
     (valid_date t \<and> 0 \<le> hour t \<and> hour t \<le> 23 \<and> 0 \<le> minute t \<and> minute t \<le> 59 \<and>
      0 \<le> second t \<and> second t \<le> 59 \<and> 0 \<le> microsecond t \<and> microsecond t \<le> 999999)"

text \<open>\<^verbatim>\<open>date.min\<close>, the first day of the calendar.\<close>

definition date_min :: date where
  "date_min = \<lparr>year = 1, month = 1, day = 1\<rparr>"

text \<open>\<^verbatim>\<open>datetime.date()\<close>: the date part of a timestamp.\<close>

definition date_of :: "datetime \<Rightarrow> date" where
  "date_of t = \<lparr>year = year t, month = month t, day = day t\<rparr>"

text \<open>
  \<^verbatim>\<open>bedtime - datetime.timedelta(days=1)\<close>. Python computes the day number of the
  result and raises \<^verbatim>\<open>OverflowError\<close> unless it is a day of the calendar
  (\<^verbatim>\<open>0 < delta.days <= _MAXORDINAL\<close>); the time of day is kept. The day before is
  taken on the calendar: the previous day of the month, else the last day of the previous
  month, else 31 December of the previous year.
\<close>

definition day_before :: "'a date_scheme \<Rightarrow> 'a date_scheme" where
  "day_before d =
     (if 1 < day d then d\<lparr>day := day d - 1\<rparr>
      else if 1 < month d
        then d\<lparr>month := month d - 1, day := days_in_month (year d) (month d - 1)\<rparr>
      else d\<lparr>year := year d - 1, month := 12, day := 31\<rparr>)"

definition minus_one_day :: "datetime \<Rightarrow> py_error + datetime" where
  "minus_one_day t =
     (if 0 < toordinal t - 1 then Inr (day_before t) else Inl OverflowError)"

section \<open>Sleep-night assignment\<close>

text \<open>
  \<^verbatim>\<open>
  def assign_sleep_day(bedtime, cutoff_hour=4):
      if 0 <= bedtime.hour < cutoff_hour:
          return (bedtime - datetime.timedelta(days=1)).date()
      else:
          return bedtime.date()
  \<close>
\<close>

definition assign_sleep_day :: "datetime \<Rightarrow> int \<Rightarrow> py_error + date" where
  "assign_sleep_day bedtime cutoff_hour =
     (if 0 \<le> hour bedtime \<and> hour bedtime < cutoff_hour
      then (case minus_one_day bedtime of
              Inl e \<Rightarrow> Inl e
            | Inr t \<Rightarrow> Inr (date_of t))
      else Inr (date_of bedtime))"

section \<open>The tables\<close>

text \<open>
  The caller's table is the one \<^verbatim>\<open>pd.read_csv\<close> made of the export: a column
  \<^verbatim>\<open>"Start Time"\<close> of strings and a column \<^verbatim>\<open>"Time Asleep(min)"\<close> of numbers. A cell
  of \<^verbatim>\<open>"Start Time"\<close> is a string or is missing (\<open>None\<close>: the NaN that
  \<^verbatim>\<open>read_csv\<close> puts for an empty field). \<^verbatim>\<open>augment_data\<close> adds the columns
  \<^verbatim>\<open>"date"\<close> (first timestamps, then dates) and \<^verbatim>\<open>"sleep_hours"\<close> to the table. A
  column that the table does not have is \<open>None\<close>; reading it raises \<^verbatim>\<open>KeyError\<close>.
  The columns of one table have the same length.

  A cell of a timestamp column is a timestamp or pandas' \<^verbatim>\<open>NaT\<close> ("not a time"); a
  cell of the column of dates is a date or \<^verbatim>\<open>NaT\<close> (\<open>None\<close>).

  Numbers are real numbers and the arithmetic is exact: the program computes in 64-bit
  floats, whose rounding is not modelled. What is proved about sums and means is proved of
  the exact values.
\<close>

datatype timestamp = NaT | Timestamp datetime

datatype date_column = Stamps "timestamp list" | Dates "date option list"

record dataframe =
  Start_Time :: "string option list option"
  Time_Asleep :: "real list option"
  df_date :: "date_column option"
  df_sleep_hours :: "real list option"

text \<open>
  The table \<^verbatim>\<open>augment_data\<close> returns: the grouped table and the columns derived from
  it. In a column computed by a rolling window \<open>None\<close> is pandas' NaN (a window with
  fewer than \<^verbatim>\<open>min_periods\<close> rows).
\<close>

record sleep_frame =
  date_col :: "date list"
  sleep_hours :: "real list"
  Sleep_Delta :: "real list"
  rolling_14d_debt :: "real option list"
  color :: "string list"
  rolling_7d_sleep :: "real option list"

definition TARGET_SLEEP :: real where
  "TARGET_SLEEP = 8"

section \<open>The operations of pandas that the program calls\<close>

text \<open>
  pandas is a library, not part of the repository: the definitions of this section are a
  model of its documented behaviour, not a translation of its source.

  \<^verbatim>\<open>pd.to_datetime(column, format="mixed")\<close> reads every cell on its own. A missing
  cell becomes \<^verbatim>\<open>NaT\<close> and raises nothing. A string goes to pandas' parser, which
  gives a timestamp, or \<^verbatim>\<open>NaT\<close> for the strings that stand for a missing value, or
  rejects the string; the parser is a parameter here (\<open>None\<close>: the string is rejected).
  At the first rejected cell \<^verbatim>\<open>to_datetime\<close> raises \<^verbatim>\<open>ValueError\<close>, whose message
  names the position of the cell.
\<close>

definition convert_cell :: "(string \<Rightarrow> timestamp option) \<Rightarrow> string option \<Rightarrow> timestamp option" where
  "convert_cell parse c = (case c of None \<Rightarrow> Some NaT | Some s \<Rightarrow> parse s)"

fun to_datetime ::
  "(string \<Rightarrow> timestamp option) \<Rightarrow> nat \<Rightarrow> string option list \<Rightarrow> py_error + timestamp list" where
  "to_datetime parse i [] = Inr []"
| "to_datetime parse i (c # cs) =
     (case convert_cell parse c of
        None \<Rightarrow> Inl (ValueError i)
      | Some t \<Rightarrow>
          (case to_datetime parse (Suc i) cs of
             Inl e \<Rightarrow> Inl e
           | Inr ts \<Rightarrow> Inr (t # ts)))"

text \<open>\<^verbatim>\<open>Series.apply(f)\<close>: \<open>f\<close> on every cell in row order; an exception of \<open>f\<close> ends the call.\<close>

fun series_apply :: "('a \<Rightarrow> py_error + 'b) \<Rightarrow> 'a list \<Rightarrow> py_error + 'b list" where
  "series_apply f [] = Inr []"
| "series_apply f (x # xs) =
     (case f x of
        Inl e \<Rightarrow> Inl e
      | Inr y \<Rightarrow>
          (case series_apply f xs of
             Inl e \<Rightarrow> Inl e
           | Inr ys \<Rightarrow> Inr (y # ys)))"

text \<open>
  \<^verbatim>\<open>assign_sleep_day\<close> as \<^verbatim>\<open>df["date"].apply(assign_sleep_day)\<close> calls it: on a cell of
  the timestamp column, with the default \<^verbatim>\<open>cutoff_hour=4\<close>. On \<^verbatim>\<open>NaT\<close> the hour is
  NaN, the comparison \<^verbatim>\<open>0 <= bedtime.hour\<close> is false, and \<^verbatim>\<open>bedtime.date()\<close> is
  \<^verbatim>\<open>NaT\<close> again.
\<close>

definition assign_sleep_day_cell :: "timestamp \<Rightarrow> py_error + date option" where
  "assign_sleep_day_cell x =
     (case x of
        NaT \<Rightarrow> Inr None
      | Timestamp t \<Rightarrow>
          (case assign_sleep_day t 4 of
             Inl e \<Rightarrow> Inl e
           | Inr d \<Rightarrow> Inr (Some d)))"

text \<open>Python compares dates as the triples (year, month, day).\<close>

definition date_less :: "date \<Rightarrow> date \<Rightarrow> bool" where
  "date_less a b =
     (year a < year b \<or> (year a = year b \<and> (month a < month b \<or>
        (month a = month b \<and> day a < day b))))"

text \<open>
  \<^verbatim>\<open>df.groupby("date", as_index=False)["sleep_hours"].sum()\<close>, with the defaults
  \<^verbatim>\<open>sort=True\<close> and \<^verbatim>\<open>dropna=True\<close>: the rows whose key is missing are left out;
  there is one row for every other key, the keys ascending, the value of a key the sum of
  its rows' values, added in row order. The table of groups is kept in key order while the
  rows are added to it.
\<close>

fun dropna_keys :: "('k option \<times> 'v) list \<Rightarrow> ('k \<times> 'v) list" where
  "dropna_keys [] = []"
| "dropna_keys ((None, v) # rows) = dropna_keys rows"
| "dropna_keys ((Some k, v) # rows) = (k, v) # dropna_keys rows"

fun group_add :: "date \<Rightarrow> real \<Rightarrow> (date \<times> real) list \<Rightarrow> (date \<times> real) list" where
  "group_add d h [] = [(d, h)]"
| "group_add d h ((k, s) # rest) =
     (if d = k then (k, s + h) # rest
      else if date_less d k then (d, h) # (k, s) # rest
      else (k, s) # group_add d h rest)"

fun groupby_sum :: "(date \<times> real) list \<Rightarrow> (date \<times> real) list \<Rightarrow> (date \<times> real) list" where
  "groupby_sum acc [] = acc"
| "groupby_sum acc ((d, h) # rows) = groupby_sum (group_add d h acc) rows"

text \<open>
  \<^verbatim>\<open>Series.rolling(window, min_periods)\<close> with a fixed window: the window of row
  \<open>i\<close> is the rows \<open>start i ..< i + 1\<close>, with \<open>start i = max 0 (i + 1 - window)\<close>.
  pandas keeps a running sum and a count of the rows in the window; moving to the next
  row it removes the rows that left the window and adds the row that entered it (the
  first window, and a window that shares no row with the one before, is summed afresh).
  The value of a row is computed from the sum and the count, and is NaN when the count is
  below \<^verbatim>\<open>min_periods\<close>.
\<close>

definition window_start :: "nat \<Rightarrow> nat \<Rightarrow> nat" where
  "window_start window i = (if window \<le> i + 1 then i + 1 - window else 0)"

definition add_sum :: "real \<Rightarrow> real \<times> nat \<Rightarrow> real \<times> nat" where
  "add_sum v st = (fst st + v, snd st + 1)"

definition remove_sum :: "real \<Rightarrow> real \<times> nat \<Rightarrow> real \<times> nat" where
  "remove_sum v st = (fst st - v, snd st - 1)"

definition calc_sum :: "nat \<Rightarrow> real \<times> nat \<Rightarrow> real option" where
  "calc_sum minp st =
     (if snd st = 0 \<and> minp = 0 then Some 0
      else if minp \<le> snd st then Some (fst st)
      else None)"

definition calc_mean :: "nat \<Rightarrow> real \<times> nat \<Rightarrow> real option" where
  "calc_mean minp st =
     (if minp \<le> snd st \<and> 0 < snd st then Some (fst st / real (snd st)) else None)"

definition roll_step :: "nat \<Rightarrow> real list \<Rightarrow> nat \<Rightarrow> real \<times> nat \<Rightarrow> real \<times> nat" where
  "roll_step window xs i st =
     (let s = window_start window i; e = i + 1 in
      if i = 0 \<or> i \<le> s
      then fold (\<lambda>j. add_sum (xs ! j)) [s..<e] (0, 0)
      else fold (\<lambda>j. add_sum (xs ! j)) [i..<e]
             (fold (\<lambda>j. remove_sum (xs ! j)) [window_start window (i - 1)..<s] st))"

function roll_loop ::
  "nat \<Rightarrow> (real \<times> nat \<Rightarrow> real option) \<Rightarrow> real list \<Rightarrow> nat \<Rightarrow> real \<times> nat \<Rightarrow> real option list" where
  "roll_loop window calc xs i st =
     (if length xs \<le> i then []
      else (let st' = roll_step window xs i st
            in calc st' # roll_loop window calc xs (i + 1) st'))"
  by pat_completeness auto
termination
  by (relation "measure (\<lambda>(window, calc, xs, i, st). length xs - i)") auto

declare roll_loop.simps [simp del]

definition rolling_sum :: "nat \<Rightarrow> nat \<Rightarrow> real list \<Rightarrow> real option list" where
  "rolling_sum window minp xs = roll_loop window (calc_sum minp) xs 0 (0, 0)"

definition rolling_mean :: "nat \<Rightarrow> nat \<Rightarrow> real list \<Rightarrow> real option list" where
  "rolling_mean window minp xs = roll_loop window (calc_mean minp) xs 0 (0, 0)"

section \<open>Augmentation\<close>

text \<open>
  Lines 65 to 72 of \<^verbatim>\<open>augment_data\<close>, on the grouped table:
  \<^verbatim>\<open>
  df["Sleep Delta"] = df["sleep_hours"] - TARGET_SLEEP
  df["rolling_14d_debt"] = (-df["Sleep Delta"]).rolling(14, min_periods=1).sum()
  df["color"] = df["sleep_hours"].apply(
      lambda x: "lightcoral" if x < TARGET_SLEEP else "lightgreen")
  df["rolling_7d_sleep"] = df["sleep_hours"].rolling(7, min_periods=1).mean()
  return df
  \<close>
\<close>

definition derive_columns :: "(date \<times> real) list \<Rightarrow> sleep_frame" where
  "derive_columns groups =
     (let hours = map snd groups;
          delta = map (\<lambda>h. h - TARGET_SLEEP) hours
      in \<lparr>date_col = map fst groups,
          sleep_hours = hours,
          Sleep_Delta = delta,
          rolling_14d_debt = rolling_sum 14 1 (map uminus delta),
          color = map (\<lambda>x. if x < TARGET_SLEEP then ''lightcoral'' else ''lightgreen'') hours,
          rolling_7d_sleep = rolling_mean 7 1 hours\<rparr>)"

text \<open>
  \<^verbatim>\<open>
  def augment_data(df):
      df["date"] = pd.to_datetime(df["Start Time"], format="mixed")
      df["date"] = df["date"].apply(assign_sleep_day)
      df["sleep_hours"] = df["Time Asleep(min)"] / 60
      df = df.groupby("date", as_index=False)["sleep_hours"].sum()
      ...
  \<close>
  The function returns the new table, or the exception it raised, and the caller's table
  as the call left it: the assignments to \<^verbatim>\<open>df[...]\<close> before the grouping change
  the table that was passed in.
\<close>

definition augment_data ::
  "(string \<Rightarrow> timestamp option) \<Rightarrow> dataframe \<Rightarrow> (py_error + sleep_frame) \<times> dataframe" where
  "augment_data parse df =
     (case Start_Time df of
        None \<Rightarrow> (Inl (KeyError ''Start Time''), df)
      | Some cells \<Rightarrow>
          (case to_datetime parse 0 cells of
             Inl e \<Rightarrow> (Inl e, df)
           | Inr ts \<Rightarrow>
               (let df1 = df\<lparr>df_date := Some (Stamps ts)\<rparr> in
                case series_apply assign_sleep_day_cell ts of
                  Inl e \<Rightarrow> (Inl e, df1)
                | Inr ds \<Rightarrow>
                    (let df2 = df1\<lparr>df_date := Some (Dates ds)\<rparr> in
                     case Time_Asleep df2 of
                       None \<Rightarrow> (Inl (KeyError ''Time Asleep(min)''), df2)
                     | Some ms \<Rightarrow>
                         (let hs = map (\<lambda>m. m / 60) ms;
                              df3 = df2\<lparr>df_sleep_hours := Some hs\<rparr>
                          in (Inr (derive_columns (groupby_sum [] (dropna_keys (zip ds hs)))),
                              df3))))))"

section \<open>File discovery\<close>

text \<open>
  \<^verbatim>\<open>
  def get_file(extension):
      return glob.glob(f"*.{extension}")[0]
  \<close>
  \<^verbatim>\<open>glob\<close> and \<^verbatim>\<open>fnmatch\<close> are modules of Python's standard library; what follows
  is a model of their documented behaviour for a pattern with no directory part, on the
  names of the working directory in the order in which the directory lists them. In a
  pattern \<^verbatim>\<open>*\<close> matches any run of characters and \<^verbatim>\<open>?\<close> any one character; every
  other character matches itself. Character classes (\<^verbatim>\<open>[...]\<close>) are not modelled: the
  theorem about \<open>get_file\<close> is about extensions that have no \<^verbatim>\<open>[\<close>. A name that
  begins with a dot is matched only by a pattern that begins with a dot.
  Indexing an empty list raises \<^verbatim>\<open>IndexError\<close>.
\<close>

fun fnmatch :: "string \<Rightarrow> string \<Rightarrow> bool" where
  "fnmatch [] [] = True"
| "fnmatch [] (c # cs) = False"
| "fnmatch (p # ps) [] = (p = CHR ''*'' \<and> fnmatch ps [])"
| "fnmatch (p # ps) (c # cs) =
     (if p = CHR ''*'' then fnmatch ps (c # cs) \<or> fnmatch (p # ps) cs
      else if p = CHR ''?'' then fnmatch ps cs
      else p = c \<and> fnmatch ps cs)"

definition is_hidden :: "string \<Rightarrow> bool" where
  "is_hidden name = (case name of [] \<Rightarrow> False | c # cs \<Rightarrow> c = CHR ''.'')"

definition glob :: "string list \<Rightarrow> string \<Rightarrow> string list" where
  "glob entries pattern =
     filter (\<lambda>name. (is_hidden pattern \<or> \<not> is_hidden name) \<and> fnmatch pattern name) entries"

definition get_file :: "string list \<Rightarrow> string \<Rightarrow> py_error + string" where
  "get_file entries extension =
     (case glob entries (''*.'' @ extension) of
        [] \<Rightarrow> Inl IndexError
      | p # ps \<Rightarrow> Inr p)"

section \<open>What the tables are compared with\<close>

text \<open>
  The total of a key in a list of rows, in the words of the grouping rule: the sum of
  the values of the rows that have the key.
\<close>

definition group_total :: "date \<Rightarrow> (date \<times> real) list \<Rightarrow> real" where
  "group_total d rows = sum_list (map snd (filter (\<lambda>r. fst r = d) rows))"


section \<open>Example data\<close>

text \<open>
  One parser that the parameter of \<open>to_datetime\<close> can be: the timestamps
  \<^verbatim>\<open>YYYY-MM-DDTHH:MM\<close> and \<^verbatim>\<open>YYYY-MM-DDTHH:MM:SS\<close> (a space may stand for the
  \<^verbatim>\<open>T\<close>), which are among those that pandas reads with \<^verbatim>\<open>format="mixed"\<close>, and
  the empty string and \<^verbatim>\<open>NaT\<close>, which pandas reads as a missing value. The theorems
  below hold for every parser; this one is used to run the model.
\<close>

definition digit_val :: "char \<Rightarrow> int option" where
  "digit_val c =
     (let n = (of_char c :: nat) in if 48 \<le> n \<and> n \<le> 57 then Some (int n - 48) else None)"

fun digits_val :: "int \<Rightarrow> string \<Rightarrow> int option" where
  "digits_val acc [] = Some acc"
| "digits_val acc (c # cs) =
     (case digit_val c of None \<Rightarrow> None | Some v \<Rightarrow> digits_val (acc * 10 + v) cs)"

definition field :: "string \<Rightarrow> nat \<Rightarrow> nat \<Rightarrow> int option" where
  "field s a n = digits_val 0 (take n (drop a s))"

definition parse_iso :: "string \<Rightarrow> timestamp option" where
  "parse_iso s =
     (if s = [] \<or> s = ''NaT'' then Some NaT
      else if (length s = 16 \<or> (length s = 19 \<and> s ! 16 = CHR '':'')) \<and>
         s ! 4 = CHR ''-'' \<and> s ! 7 = CHR ''-'' \<and> (s ! 10 = CHR ''T'' \<or> s ! 10 = CHR '' '') \<and>
         s ! 13 = CHR '':''
      then (case (field s 0 4, field s 5 2, field s 8 2, field s 11 2, field s 14 2,
                  if length s = 19 then field s 17 2 else Some 0) of
              (Some y, Some m, Some d, Some H, Some M, Some S) \<Rightarrow>
                (let t = \<lparr>year = y, month = m, day = d,
                          hour = H, minute = M, second = S, microsecond = 0\<rparr>
                 in if valid_datetime t then Some (Timestamp t) else None)
            | _ \<Rightarrow> None)
      else None)"

text \<open>
  A table of three sessions: one evening session on 5 January, and a session after
  midnight and an evening session that both belong to the night of 1 January. One
  timestamp has no seconds.
\<close>

definition example_cells :: "string option list" where
  "example_cells =
     [Some ''2024-01-05T22:00'', Some ''2024-01-02T01:30:00'', Some ''2024-01-01T23:00:00'']"

definition example_table :: dataframe where
  "example_table =
     \<lparr>Start_Time = Some example_cells,
      Time_Asleep = Some [480, 120, 300],
      df_date = None,
      df_sleep_hours = None\<rparr>"

definition example_nights :: sleep_frame where
  "example_nights =
     \<lparr>date_col = [\<lparr>year = 2024, month = 1, day = 1\<rparr>, \<lparr>year = 2024, month = 1, day = 5\<rparr>],
      sleep_hours = [7, 8],
      Sleep_Delta = [- 1, 0],
      rolling_14d_debt = [Some 1, Some 1],
      color = [''lightcoral'', ''lightgreen''],
      rolling_7d_sleep = [Some 7, Some (15 / 2)]\<rparr>"

definition example_stamps :: "timestamp list" where
  "example_stamps =
     [Timestamp \<lparr>year = 2024, month = 1, day = 5, hour = 22, minute = 0, second = 0, microsecond = 0\<rparr>,
      Timestamp \<lparr>year = 2024, month = 1, day = 2, hour = 1, minute = 30, second = 0, microsecond = 0\<rparr>,
      Timestamp \<lparr>year = 2024, month = 1, day = 1, hour = 23, minute = 0, second = 0, microsecond = 0\<rparr>]"

definition example_dates :: "date option list" where
  "example_dates =
     [Some \<lparr>year = 2024, month = 1, day = 5\<rparr>, Some \<lparr>year = 2024, month = 1, day = 1\<rparr>,
      Some \<lparr>year = 2024, month = 1, day = 1\<rparr>]"

definition example_table_after :: dataframe where
  "example_table_after =
     example_table\<lparr>df_date := Some (Dates example_dates), df_sleep_hours := Some [8, 2, 5]\<rparr>"

text \<open>The same table with a second row that is no timestamp.\<close>

definition malformed_table :: dataframe where
  "malformed_table =
     \<lparr>Start_Time = Some [Some ''2024-01-05T22:00'', Some ''last night'', Some ''2024-01-01T23:00:00''],
      Time_Asleep = Some [480, 120, 300],
      df_date = None,
      df_sleep_hours = None\<rparr>"

text \<open>A table of two sessions, the second with no start time.\<close>

definition missing_table :: dataframe where
  "missing_table =
     \<lparr>Start_Time = Some [Some ''2024-01-05T22:00'', None],
      Time_Asleep = Some [480, 30],
      df_date = None,
      df_sleep_hours = None\<rparr>"

definition missing_nights :: sleep_frame where
  "missing_nights =
     \<lparr>date_col = [\<lparr>year = 2024, month = 1, day = 5\<rparr>],
      sleep_hours = [8],
      Sleep_Delta = [0],
      rolling_14d_debt = [Some 0],
      color = [''lightgreen''],
      rolling_7d_sleep = [Some 8]\<rparr>"

definition missing_table_after :: dataframe where
  "missing_table_after =
     missing_table\<lparr>df_date := Some (Dates [Some \<lparr>year = 2024, month = 1, day = 5\<rparr>, None]),
                   df_sleep_hours := Some [8, 1 / 2]\<rparr>"









text \<open>
  A working directory: a text file, a hidden file that ends in \<^verbatim>\<open>.csv\<close>, and two
  other files that end in \<^verbatim>\<open>.csv\<close>.
\<close>

definition example_entries :: "string list" where
  "example_entries = [''notes.txt'', ''.hidden.csv'', ''sleep.csv'', ''old.csv'']"

section \<open>Facts about the calendar\<close>

lemma div_step:
  assumes k: "0 < k"
  shows "(y::int) div k = (y - 1) div k + (if y mod k = 0 then 1 else 0)"
proof (cases "y mod k = 0")
  case True
  then have "k dvd y" by (simp add: dvd_eq_mod_eq_0)
  then have e: "k * (y div k) = y" by (rule dvd_mult_div_cancel)
  have "y - 1 = k * (y div k - 1) + (k - 1)"
    using e by (simp add: algebra_simps)
  moreover have "0 \<le> k - 1" using k by simp
  moreover have "k - 1 < k" by simp
  ultimately have "(y - 1) div k = y div k - 1" by (rule int_div_pos_eq)
  with True show ?thesis by simp
next
  case False
  have "y - 1 = k * (y div k) + (y mod k - 1)" by simp
  moreover have "0 \<le> y mod k - 1" using False k pos_mod_sign[of k y] by linarith
  moreover have "y mod k - 1 < k" using k pos_mod_bound[of k y] by linarith
  ultimately have "(y - 1) div k = y div k" by (rule int_div_pos_eq)
  with False show ?thesis by simp
qed

lemma mod_400_100: "(y::int) mod 400 = 0 \<Longrightarrow> y mod 100 = 0"
proof -
  assume "y mod 400 = 0"
  then have "400 dvd y" by (simp add: dvd_eq_mod_eq_0)
  moreover have "(100::int) dvd 400" by simp
  ultimately have "100 dvd y" using dvd_trans by blast
  then show ?thesis by (simp add: dvd_eq_mod_eq_0)
qed

lemma mod_100_4: "(y::int) mod 100 = 0 \<Longrightarrow> y mod 4 = 0"
proof -
  assume "y mod 100 = 0"
  then have "100 dvd y" by (simp add: dvd_eq_mod_eq_0)
  moreover have "(4::int) dvd 100" by simp
  ultimately have "4 dvd y" using dvd_trans by blast
  then show ?thesis by (simp add: dvd_eq_mod_eq_0)
qed

lemma leap_year_length:
  fixes y p4 q4 p100 q100 p400 q400 :: int
  assumes "p4 = q4 + (if l4 then 1 else 0)"
    and "p100 = q100 + (if l100 then 1 else 0)"
    and "p400 = q400 + (if l400 then 1 else 0)"
    and "l400 \<Longrightarrow> l100" and "l100 \<Longrightarrow> l4"
  shows "y * 365 + p4 - p100 + p400 =
         (y - 1) * 365 + q4 - q100 + q400 + (if l4 \<and> (\<not> l100 \<or> l400) then 366 else 365)"
  using assms by (cases l4; cases l100; cases l400; simp add: algebra_simps)

lemma days_before_year_Suc:
  "days_before_year (y + 1) = days_before_year y + (if is_leap y then 366 else 365)"
proof -
  have a: "y div 4 = (y - 1) div 4 + (if y mod 4 = 0 then 1 else 0)" by (rule div_step) simp
  have b: "y div 100 = (y - 1) div 100 + (if y mod 100 = 0 then 1 else 0)" by (rule div_step) simp
  have c: "y div 400 = (y - 1) div 400 + (if y mod 400 = 0 then 1 else 0)" by (rule div_step) simp
  have e: "y + 1 - 1 = y" by simp
  show ?thesis
    unfolding days_before_year_def is_leap_def e
    by (rule leap_year_length[OF a b c mod_400_100 mod_100_4])
qed

lemma days_before_month_step:
  assumes "2 \<le> m" and "m \<le> 12"
  shows "days_before_month y m = days_before_month y (m - 1) + days_in_month y (m - 1)"
proof -
  from assms have "m = 2 \<or> m = 3 \<or> m = 4 \<or> m = 5 \<or> m = 6 \<or> m = 7 \<or> m = 8 \<or> m = 9 \<or>
      m = 10 \<or> m = 11 \<or> m = 12"
    by arith
  then show ?thesis
    by (elim disjE) (simp_all add: days_before_month_def days_in_month_def)
qed

lemma toordinal_day_before:
  assumes v: "valid_date d" and o: "1 < toordinal d"
  shows "toordinal (day_before d) = toordinal d - 1"
proof (cases "1 < day d")
  case True
  then show ?thesis by (simp add: day_before_def toordinal_def)
next
  case False
  with v have d1: "day d = 1" by (simp add: valid_date_def)
  show ?thesis
  proof (cases "1 < month d")
    case True
    with v have "2 \<le> month d" "month d \<le> 12" by (simp_all add: valid_date_def)
    then have "days_before_month (year d) (month d) =
        days_before_month (year d) (month d - 1) + days_in_month (year d) (month d - 1)"
      by (rule days_before_month_step)
    with True d1 show ?thesis by (simp add: day_before_def toordinal_def)
  next
    case False
    with v have m1: "month d = 1" by (simp add: valid_date_def)
    have "days_before_year (year d - 1 + 1) =
        days_before_year (year d - 1) + (if is_leap (year d - 1) then 366 else 365)"
      by (rule days_before_year_Suc)
    then have "days_before_year (year d) =
        days_before_year (year d - 1) + (if is_leap (year d - 1) then 366 else 365)"
      by simp
    with d1 m1 show ?thesis
      by (simp add: day_before_def toordinal_def days_before_month_def)
  qed
qed

lemma valid_day_before:
  assumes v: "valid_date d" and o: "1 < toordinal d"
  shows "valid_date (day_before d)"
proof (cases "1 < day d")
  case True
  with v show ?thesis by (simp add: day_before_def valid_date_def)
next
  case False
  with v have d1: "day d = 1" by (simp add: valid_date_def)
  show ?thesis
  proof (cases "1 < month d")
    case True
    have "1 \<le> days_in_month (year d) (month d - 1)" by (simp add: days_in_month_def)
    with True v d1 show ?thesis by (simp add: day_before_def valid_date_def)
  next
    case False
    with v have m1: "month d = 1" by (simp add: valid_date_def)
    have "year d \<noteq> 1"
    proof
      assume "year d = 1"
      with d1 m1 have "toordinal d = 1"
        by (simp add: toordinal_def days_before_year_def days_before_month_def)
      with o show False by simp
    qed
    with v d1 m1 show ?thesis
      by (simp add: day_before_def valid_date_def days_in_month_def MINYEAR_def MAXYEAR_def)
  qed
qed

lemma year_days_lower:
  fixes n a b c :: int
  assumes "b \<le> a" and "0 \<le> c" and "1 \<le> n"
  shows "365 \<le> n * 365 + a - b + c"
  using assms by linarith

lemma days_before_year_lower:
  assumes "2 \<le> y"
  shows "365 \<le> days_before_year y"
proof -
  have n: "0 \<le> y - 1" using assms by simp
  have "(y - 1) div 100 \<le> (y - 1) div 4"
    by (rule zdiv_mono2[OF n]) simp_all
  moreover have "0 \<le> (y - 1) div 400"
    using n by (simp add: pos_imp_zdiv_nonneg_iff)
  moreover have "1 \<le> y - 1" using assms by simp
  ultimately show ?thesis
    unfolding days_before_year_def by (rule year_days_lower)
qed

lemma days_before_month_lower:
  assumes "2 \<le> m"
  shows "31 \<le> days_before_month y m"
  using assms by (simp add: days_before_month_def)

lemma toordinal_first_day:
  assumes v: "valid_date d"
  shows "(1 < toordinal d) = (\<not> (year d = 1 \<and> month d = 1 \<and> day d = 1))"
proof (cases "year d = 1")
  case True
  have z: "days_before_year 1 = 0" by (simp add: days_before_year_def)
  show ?thesis
  proof (cases "month d = 1")
    case m: True
    from v have "1 \<le> day d" by (simp add: valid_date_def)
    with True m z show ?thesis
      by (auto simp add: toordinal_def days_before_month_def)
  next
    case m: False
    with v have "2 \<le> month d" by (simp add: valid_date_def)
    then have "31 \<le> days_before_month (year d) (month d)" by (rule days_before_month_lower)
    moreover from v have "1 \<le> day d" by (simp add: valid_date_def)
    ultimately show ?thesis using True m z by (simp add: toordinal_def)
  qed
next
  case False
  with v have "2 \<le> year d" by (simp add: valid_date_def MINYEAR_def)
  then have "365 \<le> days_before_year (year d)" by (rule days_before_year_lower)
  moreover have "0 \<le> days_before_month (year d) (month d)"
    by (simp add: days_before_month_def)
  moreover from v have "1 \<le> day d" by (simp add: valid_date_def)
  ultimately show ?thesis using False by (simp add: toordinal_def)
qed

lemma date_of_day_before: "date_of (day_before t) = day_before (date_of t)"
  by (simp add: date_of_def day_before_def)

lemma toordinal_date_of: "toordinal (date_of t) = toordinal t"
  by (simp add: date_of_def toordinal_def)

lemma valid_date_date_of: "valid_date (date_of t) = valid_date t"
  by (simp add: date_of_def valid_date_def)

lemma date_of_eq_min:
  "(date_of t = date_min) = (year t = 1 \<and> month t = 1 \<and> day t = 1)"
  by (auto simp add: date_of_def date_min_def)

lemma after_date_min:
  assumes "valid_datetime t" and "date_of t \<noteq> date_min"
  shows "1 < toordinal t"
proof -
  from assms(1) have "valid_date t" by (simp add: valid_datetime_def)
  then have "(1 < toordinal t) = (\<not> (year t = 1 \<and> month t = 1 \<and> day t = 1))"
    by (rule toordinal_first_day)
  with assms(2) show ?thesis by (simp add: date_of_eq_min)
qed

lemma assign_sleep_day_shift:
  assumes "valid_datetime t" and "date_of t \<noteq> date_min"
    and "0 \<le> hour t" and "hour t < c"
  shows "assign_sleep_day t c = Inr (day_before (date_of t))"
proof -
  have "1 < toordinal t" using assms(1,2) by (rule after_date_min)
  then show ?thesis
    using assms(3,4) by (simp add: assign_sleep_day_def minus_one_day_def date_of_day_before)
qed

lemma assign_sleep_day_keep:
  assumes "c \<le> hour t"
  shows "assign_sleep_day t c = Inr (date_of t)"
  using assms by (simp add: assign_sleep_day_def)

section \<open>Sleep-night assignment: the claims\<close>

text \<open>
  C1 (as amended). For every valid timestamp and every \<open>cutoff_hour\<close> in [0,23]: when
  the hour is below \<open>cutoff_hour\<close> and the timestamp is not on the first day of the
  calendar (0001-01-01), \<open>assign_sleep_day\<close> returns the calendar date exactly one day
  before the timestamp's own date (a valid date whose day number is one less); when the
  hour is \<open>cutoff_hour\<close> or later, the hour equal to \<open>cutoff_hour\<close> included, it
  returns the timestamp's own date.
\<close>

theorem assign_sleep_day_by_hour:
  assumes "valid_datetime t" and "0 \<le> cutoff_hour" and "cutoff_hour \<le> 23"
  shows "(hour t < cutoff_hour \<and> date_of t \<noteq> date_min \<longrightarrow>
            assign_sleep_day t cutoff_hour = Inr (day_before (date_of t)) \<and>
            valid_date (day_before (date_of t)) \<and>
            toordinal (day_before (date_of t)) = toordinal (date_of t) - 1) \<and>
         (cutoff_hour \<le> hour t \<longrightarrow> assign_sleep_day t cutoff_hour = Inr (date_of t))"
proof (intro conjI impI)
  assume h: "hour t < cutoff_hour \<and> date_of t \<noteq> date_min"
  from assms(1) have h0: "0 \<le> hour t" by (simp add: valid_datetime_def)
  from h show "assign_sleep_day t cutoff_hour = Inr (day_before (date_of t))"
    using assms(1) h0 by (simp add: assign_sleep_day_shift)
  from assms(1) have v: "valid_date (date_of t)"
    by (simp add: valid_datetime_def valid_date_date_of)
  from h assms(1) have o: "1 < toordinal (date_of t)"
    by (simp add: after_date_min toordinal_date_of)
  from v o show "valid_date (day_before (date_of t))" by (rule valid_day_before)
  from v o show "toordinal (day_before (date_of t)) = toordinal (date_of t) - 1"
    by (rule toordinal_day_before)
next
  assume "cutoff_hour \<le> hour t"
  then show "assign_sleep_day t cutoff_hour = Inr (date_of t)" by (rule assign_sleep_day_keep)
qed

text \<open>
  The theorem at 2024-01-02 01:30 (shifted to 2024-01-01) and at 2024-01-02 04:00, the
  hour equal to the cutoff (not shifted), with the default cutoff 4.
\<close>

theorem assign_sleep_day_by_hour_witness:
  "assign_sleep_day
     \<lparr>year = 2024, month = 1, day = 2, hour = 1, minute = 30, second = 0, microsecond = 0\<rparr> 4
     = Inr \<lparr>year = 2024, month = 1, day = 1\<rparr> \<and>
   toordinal \<lparr>year = 2024, month = 1, day = 1\<rparr> = toordinal \<lparr>year = 2024, month = 1, day = 2\<rparr> - 1 \<and>
   assign_sleep_day
     \<lparr>year = 2024, month = 1, day = 2, hour = 4, minute = 0, second = 0, microsecond = 0\<rparr> 4
     = Inr \<lparr>year = 2024, month = 1, day = 2\<rparr>"
  using
    assign_sleep_day_by_hour [of
      "\<lparr>year = 2024, month = 1, day = 2, hour = 1, minute = 30, second = 0, microsecond = 0\<rparr>" 4]
    assign_sleep_day_by_hour [of
      "\<lparr>year = 2024, month = 1, day = 2, hour = 4, minute = 0, second = 0, microsecond = 0\<rparr>" 4]
  by (simp add: valid_datetime_def valid_date_def days_in_month_def MINYEAR_def MAXYEAR_def
      date_of_def date_min_def day_before_def)

text \<open>
  C1 as stated fails on the first day of the calendar: 0001-01-01 01:00 is a valid
  timestamp with its hour below the cutoff 4, there is no date before it, and the
  subtraction of one day raises \<^verbatim>\<open>OverflowError\<close>.
\<close>

theorem assign_sleep_day_first_day_overflow:
  "valid_datetime
     \<lparr>year = 1, month = 1, day = 1, hour = 1, minute = 0, second = 0, microsecond = 0\<rparr> \<and>
   assign_sleep_day
     \<lparr>year = 1, month = 1, day = 1, hour = 1, minute = 0, second = 0, microsecond = 0\<rparr> 4
     = Inl OverflowError"
  by (simp add: valid_datetime_def valid_date_def days_in_month_def MINYEAR_def MAXYEAR_def
      assign_sleep_day_def minus_one_day_def toordinal_def days_before_year_def
      days_before_month_def)

text \<open>
  C7 (as amended). \<open>assign_sleep_day\<close> does not check \<open>cutoff_hour\<close>: with a cutoff
  above 23 every valid timestamp after 0001-01-01 is assigned the day before its own date,
  whatever its hour, and with a negative cutoff every timestamp is assigned its own date.
  In both cases a date is returned and no error is raised.
\<close>

theorem assign_sleep_day_cutoff_unchecked:
  assumes "valid_datetime t"
  shows "(23 < cutoff_hour \<and> date_of t \<noteq> date_min \<longrightarrow>
            assign_sleep_day t cutoff_hour = Inr (day_before (date_of t))) \<and>
         (cutoff_hour < 0 \<longrightarrow> assign_sleep_day t cutoff_hour = Inr (date_of t))"
proof (intro conjI impI)
  assume h: "23 < cutoff_hour \<and> date_of t \<noteq> date_min"
  from assms have "0 \<le> hour t" and "hour t \<le> 23" by (simp_all add: valid_datetime_def)
  with h have "hour t < cutoff_hour" by simp
  with assms h \<open>0 \<le> hour t\<close> show "assign_sleep_day t cutoff_hour = Inr (day_before (date_of t))"
    by (simp add: assign_sleep_day_shift)
next
  assume "cutoff_hour < 0"
  moreover from assms have "0 \<le> hour t" by (simp add: valid_datetime_def)
  ultimately have "cutoff_hour \<le> hour t" by simp
  then show "assign_sleep_day t cutoff_hour = Inr (date_of t)" by (rule assign_sleep_day_keep)
qed

theorem assign_sleep_day_cutoff_unchecked_witness:
  "assign_sleep_day
     \<lparr>year = 2024, month = 3, day = 1, hour = 13, minute = 0, second = 0, microsecond = 0\<rparr> 30
     = Inr \<lparr>year = 2024, month = 2, day = 29\<rparr> \<and>
   assign_sleep_day
     \<lparr>year = 2024, month = 3, day = 1, hour = 1, minute = 0, second = 0, microsecond = 0\<rparr> (- 5)
     = Inr \<lparr>year = 2024, month = 3, day = 1\<rparr>"
  using
    assign_sleep_day_cutoff_unchecked [of
      "\<lparr>year = 2024, month = 3, day = 1, hour = 13, minute = 0, second = 0, microsecond = 0\<rparr>" 30]
    assign_sleep_day_cutoff_unchecked [of
      "\<lparr>year = 2024, month = 3, day = 1, hour = 1, minute = 0, second = 0, microsecond = 0\<rparr>" "- 5"]
  by (simp add: valid_datetime_def valid_date_def days_in_month_def is_leap_def MINYEAR_def
      MAXYEAR_def date_of_def date_min_def day_before_def)

text \<open>
  C7 as stated fails: the cutoff 24 is outside [0,23], and \<open>assign_sleep_day\<close> returns a
  date for the timestamp 2024-01-02 13:00 instead of failing.
\<close>

theorem assign_sleep_day_cutoff_24_returns:
  "assign_sleep_day
     \<lparr>year = 2024, month = 1, day = 2, hour = 13, minute = 0, second = 0, microsecond = 0\<rparr> 24
     = Inr \<lparr>year = 2024, month = 1, day = 1\<rparr>"
  by (simp add: assign_sleep_day_def minus_one_day_def toordinal_def days_before_year_def
      days_before_month_def is_leap_def date_of_def day_before_def)

section \<open>Facts about the column operations\<close>

lemma to_datetime_Inr:
  "to_datetime parse n cs = Inr ts \<Longrightarrow> list_all2 (\<lambda>c t. convert_cell parse c = Some t) cs ts"
proof (induction cs arbitrary: n ts)
  case Nil
  then show ?case by simp
next
  case (Cons c cs)
  from Cons.prems obtain t ts' where p: "convert_cell parse c = Some t"
    and r: "to_datetime parse (Suc n) cs = Inr ts'" and e: "ts = t # ts'"
    by (auto split: option.splits sum.splits)
  from Cons.IH[OF r] p e show ?case by simp
qed

lemma to_datetime_all:
  "list_all2 (\<lambda>c t. convert_cell parse c = Some t) cs ts \<Longrightarrow> to_datetime parse n cs = Inr ts"
proof (induction cs arbitrary: n ts)
  case Nil
  then show ?case by simp
next
  case (Cons c cs)
  from Cons.prems obtain t ts' where e: "ts = t # ts'" and p: "convert_cell parse c = Some t"
    and r: "list_all2 (\<lambda>c t. convert_cell parse c = Some t) cs ts'"
    by (auto simp add: list_all2_Cons1)
  from Cons.IH[OF r, of "Suc n"] p e show ?case by simp
qed

lemma to_datetime_fail:
  "i < length cs \<Longrightarrow> convert_cell parse (cs ! i) = None \<Longrightarrow>
     \<exists>j\<le>i. convert_cell parse (cs ! j) = None \<and> (\<forall>k<j. convert_cell parse (cs ! k) \<noteq> None) \<and>
       to_datetime parse n cs = Inl (ValueError (n + j))"
proof (induction cs arbitrary: i n)
  case Nil
  then show ?case by simp
next
  case (Cons c cs)
  show ?case
  proof (cases "convert_cell parse c")
    case None
    then have "convert_cell parse ((c # cs) ! 0) = None \<and>
        (\<forall>k<(0::nat). convert_cell parse ((c # cs) ! k) \<noteq> None) \<and>
        to_datetime parse n (c # cs) = Inl (ValueError (n + 0))"
      by simp
    then show ?thesis by blast
  next
    case (Some t)
    with Cons.prems obtain i' where i: "i = Suc i'" by (cases i) auto
    with Cons.prems have "i' < length cs" and "convert_cell parse (cs ! i') = None" by simp_all
    from Cons.IH[OF this, of "Suc n"] obtain j where j: "j \<le> i'"
      "convert_cell parse (cs ! j) = None" "\<forall>k<j. convert_cell parse (cs ! k) \<noteq> None"
      "to_datetime parse (Suc n) cs = Inl (ValueError (Suc n + j))"
      by blast
    have "\<forall>k<Suc j. convert_cell parse ((c # cs) ! k) \<noteq> None"
    proof (intro allI impI)
      fix k assume "k < Suc j"
      then show "convert_cell parse ((c # cs) ! k) \<noteq> None"
        using Some j(3) by (cases k) simp_all
    qed
    moreover have "to_datetime parse n (c # cs) = Inl (ValueError (n + Suc j))"
      using Some j(4) by simp
    moreover have "Suc j \<le> i" using i j(1) by simp
    moreover have "convert_cell parse ((c # cs) ! Suc j) = None" using j(2) by simp
    ultimately show ?thesis by blast
  qed
qed

lemma series_apply_Inr:
  "series_apply f xs = Inr ys \<Longrightarrow> list_all2 (\<lambda>x y. f x = Inr y) xs ys"
proof (induction xs arbitrary: ys)
  case Nil
  then show ?case by simp
next
  case (Cons x xs)
  from Cons.prems obtain y ys' where p: "f x = Inr y"
    and r: "series_apply f xs = Inr ys'" and e: "ys = y # ys'"
    by (auto split: sum.splits)
  from Cons.IH[OF r] p e show ?case by simp
qed

lemma series_apply_all:
  "list_all2 (\<lambda>x y. f x = Inr y) xs ys \<Longrightarrow> series_apply f xs = Inr ys"
proof (induction xs arbitrary: ys)
  case Nil
  then show ?case by simp
next
  case (Cons x xs)
  from Cons.prems obtain y ys' where e: "ys = y # ys'" and p: "f x = Inr y"
    and r: "list_all2 (\<lambda>x y. f x = Inr y) xs ys'"
    by (auto simp add: list_all2_Cons1)
  from Cons.IH[OF r] p e show ?case by simp
qed

text \<open>What a call of \<open>augment_data\<close> that returns a table has done.\<close>

lemma augment_data_Inr:
  assumes "augment_data parse df = (Inr out, df')"
  obtains cells ms ts ds where
    "Start_Time df = Some cells" and "Time_Asleep df = Some ms"
    and "to_datetime parse 0 cells = Inr ts"
    and "series_apply assign_sleep_day_cell ts = Inr ds"
    and "out = derive_columns (groupby_sum [] (dropna_keys (zip ds (map (\<lambda>m. m / 60) ms))))"
    and "df' = df\<lparr>df_date := Some (Dates ds), df_sleep_hours := Some (map (\<lambda>m. m / 60) ms)\<rparr>"
  using assms unfolding augment_data_def
  by (auto simp add: Let_def split: option.splits sum.splits)

text \<open>
  When the table has both input columns, every start time is missing or is accepted by
  the parser, and every timestamp is assigned a night, the call returns: the table of the
  groups, and the caller's table with the two new columns.
\<close>

lemma augment_data_returns:
  assumes "Start_Time df = Some cells" and "Time_Asleep df = Some ms"
    and "list_all2 (\<lambda>c t. convert_cell parse c = Some t) cells ts"
    and "list_all2 (\<lambda>t d. assign_sleep_day_cell t = Inr d) ts ds"
  shows "augment_data parse df =
     (Inr (derive_columns (groupby_sum [] (dropna_keys (zip ds (map (\<lambda>m. m / 60) ms))))),
      df\<lparr>df_date := Some (Dates ds), df_sleep_hours := Some (map (\<lambda>m. m / 60) ms)\<rparr>)"
proof -
  have "to_datetime parse 0 cells = Inr ts" using assms(3) by (rule to_datetime_all)
  moreover have "series_apply assign_sleep_day_cell ts = Inr ds"
    using assms(4) by (rule series_apply_all)
  ultimately show ?thesis using assms(1,2) by (simp add: augment_data_def Let_def)
qed

lemma derive_columns_fields:
  "date_col (derive_columns g) = map fst g"
  "sleep_hours (derive_columns g) = map snd g"
  "Sleep_Delta (derive_columns g) = map (\<lambda>h. h - TARGET_SLEEP) (map snd g)"
  "color (derive_columns g) =
     map (\<lambda>x. if x < TARGET_SLEEP then ''lightcoral'' else ''lightgreen'') (map snd g)"
  "rolling_14d_debt (derive_columns g) =
     rolling_sum 14 1 (map uminus (map (\<lambda>h. h - TARGET_SLEEP) (map snd g)))"
  "rolling_7d_sleep (derive_columns g) = rolling_mean 7 1 (map snd g)"
  by (simp_all add: derive_columns_def Let_def comp_assoc)

section \<open>Facts about the grouping\<close>

lemma date_less_irrefl: "\<not> date_less a a"
  by (simp add: date_less_def)

lemma date_less_trans: "date_less a b \<Longrightarrow> date_less b c \<Longrightarrow> date_less a c"
  unfolding date_less_def by linarith

lemma date_less_total: "a \<noteq> b \<Longrightarrow> \<not> date_less a b \<Longrightarrow> date_less b a"
proof -
  assume n: "a \<noteq> b" and l: "\<not> date_less a b"
  from n have "year a \<noteq> year b \<or> month a \<noteq> month b \<or> day a \<noteq> day b"
    by (cases a, cases b) simp
  with l show "date_less b a" unfolding date_less_def by linarith
qed

lemma sorted_dates_distinct: "sorted_wrt date_less ds \<Longrightarrow> distinct ds"
  by (induction ds) (auto simp add: date_less_irrefl)

lemma keys_group_add: "fst ` set (group_add d h acc) = insert d (fst ` set acc)"
  by (induction d h acc rule: group_add.induct) auto

lemma sorted_group_add:
  "sorted_wrt date_less (map fst acc) \<Longrightarrow> sorted_wrt date_less (map fst (group_add d h acc))"
proof (induction d h acc rule: group_add.induct)
  case (1 d h)
  then show ?case by simp
next
  case (2 d h k s rest)
  show ?case
  proof (cases "d = k")
    case True
    with "2.prems" show ?thesis by simp
  next
    case False
    show ?thesis
    proof (cases "date_less d k")
      case True
      from "2.prems" have "\<forall>x\<in>set rest. date_less k (fst x)" by simp
      with True have "\<forall>x\<in>set rest. date_less d (fst x)" by (blast intro: date_less_trans)
      with True False "2.prems" show ?thesis by simp
    next
      case l: False
      from False l have kd: "date_less k d" by (simp add: date_less_total)
      from "2.prems" have s: "sorted_wrt date_less (map fst rest)"
        and b: "\<forall>x\<in>set rest. date_less k (fst x)" by simp_all
      have "\<forall>x\<in>fst ` set (group_add d h rest). date_less k x"
        using kd b by (simp add: keys_group_add)
      then have "\<forall>x\<in>set (group_add d h rest). date_less k (fst x)" by simp
      moreover have "sorted_wrt date_less (map fst (group_add d h rest))"
        using False l s by (rule "2.IH")
      ultimately show ?thesis using False l by simp
    qed
  qed
qed

lemma map_of_group_add:
  "sorted_wrt date_less (map fst acc) \<Longrightarrow>
     map_of (group_add d h acc) =
       (map_of acc)(d \<mapsto> (case map_of acc d of None \<Rightarrow> h | Some s \<Rightarrow> s + h))"
proof (induction d h acc rule: group_add.induct)
  case (1 d h)
  then show ?case by simp
next
  case (2 d h k s rest)
  show ?case
  proof (cases "d = k")
    case True
    then show ?thesis by auto
  next
    case False
    show ?thesis
    proof (cases "date_less d k")
      case True
      from "2.prems" have "\<forall>x\<in>set rest. date_less k (fst x)" by simp
      with True have "\<forall>x\<in>set rest. date_less d (fst x)" by (blast intro: date_less_trans)
      then have "d \<notin> fst ` set rest" by (auto simp add: date_less_irrefl)
      then have "map_of rest d = None" by (simp add: map_of_eq_None_iff)
      with True False show ?thesis by auto
    next
      case l: False
      from "2.prems" have s: "sorted_wrt date_less (map fst rest)" by simp
      have "map_of (group_add d h rest) =
          (map_of rest)(d \<mapsto> (case map_of rest d of None \<Rightarrow> h | Some s \<Rightarrow> s + h))"
        using False l s by (rule "2.IH")
      with False l show ?thesis by auto
    qed
  qed
qed

lemma group_total_Cons:
  "group_total k ((d, h) # rows) = (if d = k then h else 0) + group_total k rows"
  by (simp add: group_total_def)

lemma groupby_sum_invariant:
  "sorted_wrt date_less (map fst acc) \<Longrightarrow>
     sorted_wrt date_less (map fst (groupby_sum acc rows)) \<and>
     fst ` set (groupby_sum acc rows) = fst ` set acc \<union> fst ` set rows \<and>
     (\<forall>k. map_of (groupby_sum acc rows) k =
        (if k \<in> fst ` set acc \<union> fst ` set rows
         then Some ((case map_of acc k of None \<Rightarrow> 0 | Some s \<Rightarrow> s) + group_total k rows)
         else None))"
proof (induction acc rows rule: groupby_sum.induct)
  case (1 acc)
  show ?case
  proof (intro conjI allI)
    show "sorted_wrt date_less (map fst (groupby_sum acc []))" using 1 by simp
    show "fst ` set (groupby_sum acc []) = fst ` set acc \<union> fst ` set []" by simp
    fix k
    show "map_of (groupby_sum acc []) k =
        (if k \<in> fst ` set acc \<union> fst ` set []
         then Some ((case map_of acc k of None \<Rightarrow> 0 | Some s \<Rightarrow> s) + group_total k [])
         else None)"
    proof (cases "map_of acc k")
      case None
      then show ?thesis by (simp add: map_of_eq_None_iff)
    next
      case (Some a)
      then have "(k, a) \<in> set acc" by (rule map_of_SomeD)
      then have "k \<in> fst ` set acc" by force
      with Some show ?thesis by (simp add: group_total_def)
    qed
  qed
next
  case (2 acc d h rows)
  let ?acc = "group_add d h acc"
  have s: "sorted_wrt date_less (map fst ?acc)" using "2.prems" by (rule sorted_group_add)
  have m: "map_of ?acc = (map_of acc)(d \<mapsto> (case map_of acc d of None \<Rightarrow> h | Some s \<Rightarrow> s + h))"
    using "2.prems" by (rule map_of_group_add)
  from "2.IH"[OF s] have a: "sorted_wrt date_less (map fst (groupby_sum ?acc rows))"
    and b: "fst ` set (groupby_sum ?acc rows) = fst ` set ?acc \<union> fst ` set rows"
    and c: "\<And>k. map_of (groupby_sum ?acc rows) k =
        (if k \<in> fst ` set ?acc \<union> fst ` set rows
         then Some ((case map_of ?acc k of None \<Rightarrow> 0 | Some s \<Rightarrow> s) + group_total k rows)
         else None)"
    by simp_all
  show ?case
  proof (intro conjI allI)
    show "sorted_wrt date_less (map fst (groupby_sum acc ((d, h) # rows)))" using a by simp
    show "fst ` set (groupby_sum acc ((d, h) # rows)) = fst ` set acc \<union> fst ` set ((d, h) # rows)"
      using b by (simp add: keys_group_add)
    fix k
    show "map_of (groupby_sum acc ((d, h) # rows)) k =
        (if k \<in> fst ` set acc \<union> fst ` set ((d, h) # rows)
         then Some ((case map_of acc k of None \<Rightarrow> 0 | Some s \<Rightarrow> s) +
                    group_total k ((d, h) # rows))
         else None)"
    proof (cases "k = d")
      case True
      then show ?thesis
        using c[of k] m by (cases "map_of acc d") (simp_all add: keys_group_add group_total_Cons)
    next
      case False
      then show ?thesis
        using c[of k] m by (simp add: keys_group_add group_total_Cons)
    qed
  qed
qed

lemma groupby_sum_rows:
  fixes rows :: "(date \<times> real) list"
  defines "g \<equiv> groupby_sum [] rows"
  shows "sorted_wrt date_less (map fst g)"
    and "distinct (map fst g)"
    and "set (map fst g) = fst ` set rows"
    and "k < length g \<Longrightarrow> snd (g ! k) = group_total (fst (g ! k)) rows"
proof -
  let ?e = "[] :: (date \<times> real) list"
  have i: "sorted_wrt date_less (map fst g) \<and> fst ` set g = fst ` set ?e \<union> fst ` set rows \<and>
     (\<forall>k. map_of g k =
        (if k \<in> fst ` set ?e \<union> fst ` set rows
         then Some ((case map_of ?e k of None \<Rightarrow> 0 | Some s \<Rightarrow> s) + group_total k rows)
         else None))"
    unfolding g_def by (rule groupby_sum_invariant) simp
  from i show s: "sorted_wrt date_less (map fst g)" by simp
  then show d: "distinct (map fst g)" by (rule sorted_dates_distinct)
  from i show "set (map fst g) = fst ` set rows" by simp
  assume k: "k < length g"
  then have "g ! k \<in> set g" by simp
  then have "(fst (g ! k), snd (g ! k)) \<in> set g" by simp
  with d have "map_of g (fst (g ! k)) = Some (snd (g ! k))" by (simp only: map_of_eq_Some_iff)
  moreover from i have "map_of g (fst (g ! k)) =
      (if fst (g ! k) \<in> fst ` set rows then Some (group_total (fst (g ! k)) rows) else None)"
    by simp
  ultimately show "snd (g ! k) = group_total (fst (g ! k)) rows"
    by (simp split: if_splits)
qed

lemma keys_dropna_keys: "fst ` set (dropna_keys rows) = {d. Some d \<in> fst ` set rows}"
  by (induction rows rule: dropna_keys.induct) force+

lemma keys_dropna_zip:
  assumes "length ds = length hs"
  shows "fst ` set (dropna_keys (zip ds hs)) = {d. Some d \<in> set ds}"
proof -
  from assms have "fst ` set (zip ds hs) = set ds" by (metis map_fst_zip set_map)
  then show ?thesis by (simp add: keys_dropna_keys)
qed


section \<open>Facts about the rolling windows\<close>


















section \<open>Facts about the matching of file names\<close>

lemma fnmatch_literal:
  "\<forall>c\<in>set lit. c \<noteq> CHR ''*'' \<and> c \<noteq> CHR ''?'' \<Longrightarrow> fnmatch lit name = (name = lit)"
proof (induction lit arbitrary: name)
  case Nil
  show ?case by (cases name) simp_all
next
  case (Cons p ps)
  then have "fnmatch ps cs = (cs = ps)" for cs by simp
  with Cons.prems show ?case by (cases name) auto
qed

lemma fnmatch_star_literal:
  assumes "\<forall>c\<in>set lit. c \<noteq> CHR ''*'' \<and> c \<noteq> CHR ''?''"
  shows "fnmatch (CHR ''*'' # lit) name = suffix lit name"
proof (induction name)
  case Nil
  have "fnmatch lit [] = ([] = lit)" using assms by (rule fnmatch_literal)
  then show ?case by auto
next
  case (Cons c cs)
  have "fnmatch lit (c # cs) = (c # cs = lit)" using assms by (rule fnmatch_literal)
  with Cons show ?case by (auto simp add: suffix_Cons)
qed

lemma glob_extension:
  assumes "\<forall>c\<in>set extension. c \<noteq> CHR ''*'' \<and> c \<noteq> CHR ''?''"
  shows "glob entries (''*.'' @ extension) =
     filter (\<lambda>name. \<not> is_hidden name \<and> suffix (''.'' @ extension) name) entries"
proof -
  from assms have "\<forall>c\<in>set (''.'' @ extension). c \<noteq> CHR ''*'' \<and> c \<noteq> CHR ''?''" by simp
  then have "fnmatch (CHR ''*'' # (''.'' @ extension)) name = suffix (''.'' @ extension) name"
    for name by (rule fnmatch_star_literal)
  then show ?thesis by (simp add: glob_def is_hidden_def)
qed

section \<open>Running the model on the example data\<close>

lemma example_run:
  "augment_data parse_iso example_table = (Inr example_nights, example_table_after)"
  by code_simp

lemma malformed_run:
  "augment_data parse_iso malformed_table = (Inl (ValueError 1), malformed_table)"
  by code_simp

lemma missing_run:
  "augment_data parse_iso missing_table = (Inr missing_nights, missing_table_after)"
  by code_simp


lemma example_columns:
  "Start_Time example_table = Some example_cells"
  "Time_Asleep example_table = Some [480, 120, 300]"
  "length example_cells = length [480, 120, 300 :: real]"
  by (simp_all add: example_table_def example_cells_def)

lemma example_cells_read:
  "list_all2 (\<lambda>c t. convert_cell parse_iso c = Some t) example_cells example_stamps"
  by code_simp

lemma example_assigned:
  "list_all2 (\<lambda>t d. assign_sleep_day_cell t = Inr d) example_stamps example_dates"
  by code_simp




section \<open>File discovery: the claim\<close>

text \<open>
  C9 (as amended). For every extension that has none of the characters \<^verbatim>\<open>*\<close>,
  \<^verbatim>\<open>?\<close>, \<^verbatim>\<open>[\<close> and \<^verbatim>\<open>/\<close>: when no name of the working directory ends in
  \<^verbatim>\<open>.extension\<close>, hidden names (those that begin with a dot) set aside, \<open>get_file\<close>
  fails with \<^verbatim>\<open>IndexError\<close>; otherwise it returns the first such name in the order
  of the directory.
\<close>

theorem get_file_first_match:
  assumes "\<forall>c\<in>set extension. c \<notin> {CHR ''*'', CHR ''?'', CHR ''['', CHR ''/''}"
  shows "((\<forall>n\<in>set entries. is_hidden n \<or> \<not> suffix (''.'' @ extension) n) \<longrightarrow>
            get_file entries extension = Inl IndexError) \<and>
         (\<forall>us p vs. entries = us @ p # vs \<and>
            (\<forall>u\<in>set us. is_hidden u \<or> \<not> suffix (''.'' @ extension) u) \<and>
            \<not> is_hidden p \<and> suffix (''.'' @ extension) p \<longrightarrow>
            get_file entries extension = Inr p)"
proof -
  let ?P = "\<lambda>name. \<not> is_hidden name \<and> suffix (''.'' @ extension) name"
  from assms have "\<forall>c\<in>set extension. c \<noteq> CHR ''*'' \<and> c \<noteq> CHR ''?''" by simp
  then have g: "glob entries (''*.'' @ extension) = filter ?P entries" by (rule glob_extension)
  have none: "(\<forall>n\<in>set entries. is_hidden n \<or> \<not> suffix (''.'' @ extension) n) \<longrightarrow>
      get_file entries extension = Inl IndexError"
  proof
    assume "\<forall>n\<in>set entries. is_hidden n \<or> \<not> suffix (''.'' @ extension) n"
    then have "filter ?P entries = []" by (auto simp add: filter_empty_conv)
    with g show "get_file entries extension = Inl IndexError" by (simp add: get_file_def)
  qed
  have first: "\<forall>us p vs. entries = us @ p # vs \<and>
      (\<forall>u\<in>set us. is_hidden u \<or> \<not> suffix (''.'' @ extension) u) \<and>
      \<not> is_hidden p \<and> suffix (''.'' @ extension) p \<longrightarrow>
      get_file entries extension = Inr p"
  proof (intro allI impI)
    fix us p vs
    assume a: "entries = us @ p # vs \<and>
      (\<forall>u\<in>set us. is_hidden u \<or> \<not> suffix (''.'' @ extension) u) \<and>
      \<not> is_hidden p \<and> suffix (''.'' @ extension) p"
    then have "filter ?P us = []" by (auto simp add: filter_empty_conv)
    with a have "filter ?P entries = p # filter ?P vs" by simp
    with g show "get_file entries extension = Inr p" by (simp add: get_file_def)
  qed
  from none first show ?thesis by (rule conjI)
qed

theorem get_file_first_match_witness:
  "get_file example_entries ''csv'' = Inr ''sleep.csv'' \<and>
   get_file example_entries ''md'' = Inl IndexError"
proof -
  have c1: "\<forall>c\<in>set ''csv''. c \<notin> {CHR ''*'', CHR ''?'', CHR ''['', CHR ''/''}" by simp
  have c2: "\<forall>c\<in>set ''md''. c \<notin> {CHR ''*'', CHR ''?'', CHR ''['', CHR ''/''}" by simp
  have e: "example_entries = [''notes.txt'', ''.hidden.csv''] @ ''sleep.csv'' # [''old.csv'']"
    by (simp add: example_entries_def)
  have b: "\<forall>u\<in>set [''notes.txt'', ''.hidden.csv'']. is_hidden u \<or> \<not> suffix (''.'' @ ''csv'') u"
    by code_simp
  have p: "\<not> is_hidden ''sleep.csv'' \<and> suffix (''.'' @ ''csv'') ''sleep.csv''"
    by code_simp
  have n: "\<forall>n\<in>set example_entries. is_hidden n \<or> \<not> suffix (''.'' @ ''md'') n"
    by code_simp
  from get_file_first_match [OF c1, of example_entries] e b p
  have "get_file example_entries ''csv'' = Inr ''sleep.csv''" by blast
  moreover from get_file_first_match [OF c2, of example_entries] n
  have "get_file example_entries ''md'' = Inl IndexError" by blast
  ultimately show ?thesis by (rule conjI)
qed

text \<open>
  C9 as stated fails: in an empty working directory no file with the extension exists,
  and \<open>get_file\<close> fails with \<^verbatim>\<open>IndexError\<close>, which is not a file-not-found error.
\<close>

theorem get_file_empty_directory:
  "get_file [] ''csv'' = Inl IndexError \<and> get_file [] ''csv'' \<noteq> Inl FileNotFoundError"
  by (simp add: get_file_def glob_def)

section \<open>Augmentation: the marker, the errors and the caller's table\<close>

text \<open>
  C6. In every row of the table that \<open>augment_data\<close> returns, the colour is the
  below-target value \<^verbatim>\<open>lightcoral\<close> if and only if \<open>sleep_hours < TARGET_SLEEP\<close>, and
  the value \<^verbatim>\<open>lightgreen\<close> otherwise; a row whose \<open>sleep_hours\<close> equals
  \<open>TARGET_SLEEP\<close> is marked \<^verbatim>\<open>lightgreen\<close>. Every row has a colour.
\<close>

theorem augment_data_color:
  assumes "augment_data parse df = (Inr out, df')"
  shows "length (color out) = length (sleep_hours out) \<and>
         (\<forall>k<length (sleep_hours out).
            (color out ! k = ''lightcoral'') = (sleep_hours out ! k < TARGET_SLEEP) \<and>
            (color out ! k = ''lightgreen'') = (\<not> sleep_hours out ! k < TARGET_SLEEP) \<and>
            (sleep_hours out ! k = TARGET_SLEEP \<longrightarrow> color out ! k = ''lightgreen''))"
proof -
  from assms obtain g where "out = derive_columns g" by (rule augment_data_Inr)
  then show ?thesis by (simp add: derive_columns_fields)
qed

theorem augment_data_color_witness:
  "sleep_hours example_nights ! 0 < TARGET_SLEEP \<and> color example_nights ! 0 = ''lightcoral'' \<and>
   sleep_hours example_nights ! 1 = TARGET_SLEEP \<and> color example_nights ! 1 = ''lightgreen''"
  using augment_data_color [OF example_run]
  by (simp add: example_nights_def TARGET_SLEEP_def)

text \<open>
  C8 (as amended). When the \<open>Start Time\<close> of a row is a string that the parser
  rejects, \<open>augment_data\<close> fails with the error of \<open>to_datetime\<close>, Python's
  \<^verbatim>\<open>ValueError\<close>, which names the position of the first such row; no table is
  returned, and the caller's table is as it was.
\<close>

theorem augment_data_malformed:
  assumes "Start_Time df = Some cells" and "i < length cells"
    and "cells ! i = Some s" and "parse s = None"
  shows "\<exists>j\<le>i. (\<exists>s'. cells ! j = Some s' \<and> parse s' = None) \<and>
           (\<forall>k<j. convert_cell parse (cells ! k) \<noteq> None) \<and>
           augment_data parse df = (Inl (ValueError j), df)"
proof -
  from assms(3,4) have "convert_cell parse (cells ! i) = None" by (simp add: convert_cell_def)
  from to_datetime_fail[where parse = parse and cs = cells and i = i and n = 0, OF assms(2) this]
  obtain j where j: "j \<le> i" "convert_cell parse (cells ! j) = None"
    "\<forall>k<j. convert_cell parse (cells ! k) \<noteq> None"
    "to_datetime parse 0 cells = Inl (ValueError (0 + j))"
    by blast
  from j(2) have "\<exists>s'. cells ! j = Some s' \<and> parse s' = None"
    by (cases "cells ! j") (simp_all add: convert_cell_def)
  moreover from j(4) assms(1) have "augment_data parse df = (Inl (ValueError j), df)"
    by (simp add: augment_data_def)
  ultimately show ?thesis using j(1,3) by blast
qed

theorem augment_data_malformed_witness:
  "parse_iso ''last night'' = None \<and>
   augment_data parse_iso malformed_table = (Inl (ValueError 1), malformed_table)"
proof -
  let ?cells = "[Some ''2024-01-05T22:00'', Some ''last night'', Some ''2024-01-01T23:00:00'']"
  have s: "Start_Time malformed_table = Some ?cells" by (simp add: malformed_table_def)
  have l: "(1::nat) < length ?cells" by simp
  have c: "?cells ! 1 = Some ''last night''" by simp
  have p: "parse_iso ''last night'' = None" by code_simp
  from augment_data_malformed [where parse = parse_iso and df = malformed_table and i = 1
      and cells = ?cells and s = "''last night''", OF s l c p]
  obtain j where
    "augment_data parse_iso malformed_table = (Inl (ValueError j), malformed_table)"
    by blast
  with malformed_run have "augment_data parse_iso malformed_table =
      (Inl (ValueError 1), malformed_table)" by simp
  with p show ?thesis by simp
qed

text \<open>
  C8 as stated fails on a row whose start time is missing: the cell cannot be read as a
  timestamp, yet nothing is raised. The cell becomes \<^verbatim>\<open>NaT\<close>, the call returns, and
  the row has no part in the table of the nights.
\<close>

theorem augment_data_missing_start_time:
  "Start_Time missing_table = Some [Some ''2024-01-05T22:00'', None] \<and>
   augment_data parse_iso missing_table = (Inr missing_nights, missing_table_after) \<and>
   date_col missing_nights = [\<lparr>year = 2024, month = 1, day = 5\<rparr>] \<and>
   sleep_hours missing_nights = [8]"
proof -
  have a: "Start_Time missing_table = Some [Some ''2024-01-05T22:00'', None]"
    by (simp add: missing_table_def)
  have b: "date_col missing_nights = [\<lparr>year = 2024, month = 1, day = 5\<rparr>]"
    and c: "sleep_hours missing_nights = [8]"
    by (simp_all add: missing_nights_def)
  from a missing_run b c show ?thesis by blast
qed

text \<open>
  C10 (as amended). When \<open>augment_data\<close> returns a table, it has changed the table it
  was given: the caller's table then has a \<open>date\<close> column, holding the sleep-night of
  every row, and a \<open>sleep_hours\<close> column, holding the minutes of every row divided by
  60; its two input columns are as before, and a table that had no \<open>date\<close> or no
  \<open>sleep_hours\<close> column is not left unchanged. The call does return, with this effect,
  whenever the table has both input columns, every start time is missing or accepted by
  the parser, and every timestamp is assigned a night.
\<close>

theorem augment_data_mutates_argument:
  "(\<forall>out df'. augment_data parse df = (Inr out, df') \<longrightarrow>
      (\<exists>cells ms ts ds.
         Start_Time df = Some cells \<and> Time_Asleep df = Some ms \<and>
         list_all2 (\<lambda>c t. convert_cell parse c = Some t) cells ts \<and>
         list_all2 (\<lambda>t d. assign_sleep_day_cell t = Inr d) ts ds \<and>
         df_date df' = Some (Dates ds) \<and>
         df_sleep_hours df' = Some (map (\<lambda>m. m / 60) ms) \<and>
         Start_Time df' = Start_Time df \<and> Time_Asleep df' = Time_Asleep df \<and>
         (df_date df = None \<or> df_sleep_hours df = None \<longrightarrow> df' \<noteq> df))) \<and>
   (\<forall>cells ms ts ds.
      Start_Time df = Some cells \<and> Time_Asleep df = Some ms \<and>
      list_all2 (\<lambda>c t. convert_cell parse c = Some t) cells ts \<and>
      list_all2 (\<lambda>t d. assign_sleep_day_cell t = Inr d) ts ds \<longrightarrow>
      (\<exists>out. augment_data parse df =
         (Inr out, df\<lparr>df_date := Some (Dates ds),
                       df_sleep_hours := Some (map (\<lambda>m. m / 60) ms)\<rparr>)))"
proof (intro conjI allI impI)
  fix out df'
  assume r: "augment_data parse df = (Inr out, df')"
  then obtain cells ms ts ds where a: "Start_Time df = Some cells" "Time_Asleep df = Some ms"
    and t: "to_datetime parse 0 cells = Inr ts"
    and s: "series_apply assign_sleep_day_cell ts = Inr ds"
    and d: "df' = df\<lparr>df_date := Some (Dates ds), df_sleep_hours := Some (map (\<lambda>m. m / 60) ms)\<rparr>"
    by (rule augment_data_Inr)
  from t have t': "list_all2 (\<lambda>c t. convert_cell parse c = Some t) cells ts"
    by (rule to_datetime_Inr)
  from s have s': "list_all2 (\<lambda>t d. assign_sleep_day_cell t = Inr d) ts ds"
    by (rule series_apply_Inr)
  from d have f: "df_date df' = Some (Dates ds)"
    "df_sleep_hours df' = Some (map (\<lambda>m. m / 60) ms)"
    "Start_Time df' = Start_Time df" "Time_Asleep df' = Time_Asleep df"
    by simp_all
  have n: "df_date df = None \<or> df_sleep_hours df = None \<longrightarrow> df' \<noteq> df"
    using f(1,2) by auto
  show "\<exists>cells ms ts ds.
         Start_Time df = Some cells \<and> Time_Asleep df = Some ms \<and>
         list_all2 (\<lambda>c t. convert_cell parse c = Some t) cells ts \<and>
         list_all2 (\<lambda>t d. assign_sleep_day_cell t = Inr d) ts ds \<and>
         df_date df' = Some (Dates ds) \<and>
         df_sleep_hours df' = Some (map (\<lambda>m. m / 60) ms) \<and>
         Start_Time df' = Start_Time df \<and> Time_Asleep df' = Time_Asleep df \<and>
         (df_date df = None \<or> df_sleep_hours df = None \<longrightarrow> df' \<noteq> df)"
  proof (intro exI conjI)
    show "Start_Time df = Some cells" by (rule a(1))
    show "Time_Asleep df = Some ms" by (rule a(2))
    show "list_all2 (\<lambda>c t. convert_cell parse c = Some t) cells ts" by (rule t')
    show "list_all2 (\<lambda>t d. assign_sleep_day_cell t = Inr d) ts ds" by (rule s')
    show "df_date df' = Some (Dates ds)" by (rule f(1))
    show "df_sleep_hours df' = Some (map (\<lambda>m. m / 60) ms)" by (rule f(2))
    show "Start_Time df' = Start_Time df" by (rule f(3))
    show "Time_Asleep df' = Time_Asleep df" by (rule f(4))
    show "df_date df = None \<or> df_sleep_hours df = None \<longrightarrow> df' \<noteq> df" by (rule n)
  qed
next
  fix cells ms ts ds
  assume "Start_Time df = Some cells \<and> Time_Asleep df = Some ms \<and>
      list_all2 (\<lambda>c t. convert_cell parse c = Some t) cells ts \<and>
      list_all2 (\<lambda>t d. assign_sleep_day_cell t = Inr d) ts ds"
  then have h: "Start_Time df = Some cells" "Time_Asleep df = Some ms"
    "list_all2 (\<lambda>c t. convert_cell parse c = Some t) cells ts"
    "list_all2 (\<lambda>t d. assign_sleep_day_cell t = Inr d) ts ds"
    by simp_all
  have "augment_data parse df =
     (Inr (derive_columns (groupby_sum [] (dropna_keys (zip ds (map (\<lambda>m. m / 60) ms))))),
      df\<lparr>df_date := Some (Dates ds), df_sleep_hours := Some (map (\<lambda>m. m / 60) ms)\<rparr>)"
    using h by (rule augment_data_returns)
  then show "\<exists>out. augment_data parse df =
      (Inr out, df\<lparr>df_date := Some (Dates ds),
                    df_sleep_hours := Some (map (\<lambda>m. m / 60) ms)\<rparr>)"
    by (rule exI)
qed

theorem augment_data_mutates_argument_witness:
  "df_date example_table = None \<and> df_sleep_hours example_table = None \<and>
   augment_data parse_iso example_table = (Inr example_nights, example_table_after) \<and>
   df_date example_table_after = Some (Dates example_dates) \<and>
   df_sleep_hours example_table_after = Some [8, 2, 5] \<and>
   example_table_after \<noteq> example_table"
proof -
  note t = augment_data_mutates_argument [of parse_iso example_table]
  from t example_run obtain ds where "df_date example_table_after = Some (Dates ds)"
    and n: "df_date example_table = None \<or> df_sleep_hours example_table = None \<longrightarrow>
      example_table_after \<noteq> example_table"
    by blast
  have a: "df_date example_table = None" "df_sleep_hours example_table = None"
    by (simp_all add: example_table_def)
  with n have c: "example_table_after \<noteq> example_table" by simp
  from t example_columns(1,2) example_cells_read example_assigned
  obtain out where "augment_data parse_iso example_table =
      (Inr out, example_table\<lparr>df_date := Some (Dates example_dates),
         df_sleep_hours := Some (map (\<lambda>m. m / 60) [480, 120, 300])\<rparr>)"
    by blast
  with example_run have "example_table_after =
      example_table\<lparr>df_date := Some (Dates example_dates),
         df_sleep_hours := Some (map (\<lambda>m. m / 60) [480, 120, 300])\<rparr>"
    by simp
  then have b: "df_date example_table_after = Some (Dates example_dates)"
    "df_sleep_hours example_table_after = Some [8, 2, 5]"
    by (simp_all add: example_table_after_def)
  from a example_run b c show ?thesis by blast
qed

text \<open>
  C10 as stated, for every input table, fails on a call that raises: the table with a
  row that is no timestamp is left as it was, without the two columns.
\<close>

theorem augment_data_raises_unchanged:
  "df_date malformed_table = None \<and> df_sleep_hours malformed_table = None \<and>
   augment_data parse_iso malformed_table = (Inl (ValueError 1), malformed_table)"
proof -
  have "df_date malformed_table = None" "df_sleep_hours malformed_table = None"
    by (simp_all add: malformed_table_def)
  with malformed_run show ?thesis by blast
qed

section \<open>Augmentation: the grouping\<close>

text \<open>
  The hypotheses of the theorems of this section and the next describe a table that
  \<open>augment_data\<close> can process: it has both input columns, every start time is missing
  or is accepted by the parser (\<open>ts\<close> are the timestamps), and every timestamp is
  assigned a night (\<open>ds\<close> are the nights, \<open>None\<close> for a row without start time). The
  call then returns a table, and the theorems say what the table holds.
\<close>

text \<open>
  C5. \<open>augment_data\<close> returns a table that has exactly one row for every distinct
  sleep-night of the input (its dates are the assigned dates, none twice), in strictly
  ascending order of date.
\<close>

theorem augment_data_one_row_per_date:
  assumes "Start_Time df = Some cells" and "Time_Asleep df = Some ms"
    and "length cells = length ms"
    and "list_all2 (\<lambda>c t. convert_cell parse c = Some t) cells ts"
    and "list_all2 (\<lambda>t d. assign_sleep_day_cell t = Inr d) ts ds"
  shows "\<exists>out df'. augment_data parse df = (Inr out, df') \<and>
           set (date_col out) = {d. Some d \<in> set ds} \<and>
           distinct (date_col out) \<and>
           sorted_wrt date_less (date_col out)"
proof -
  let ?rows = "dropna_keys (zip ds (map (\<lambda>m. m / 60) ms))"
  let ?out = "derive_columns (groupby_sum [] ?rows)"
  let ?df = "df\<lparr>df_date := Some (Dates ds), df_sleep_hours := Some (map (\<lambda>m. m / 60) ms)\<rparr>"
  have r: "augment_data parse df = (Inr ?out, ?df)"
    using assms(1,2,4,5) by (rule augment_data_returns)
  from assms(3,4,5) have "length ds = length (map (\<lambda>m. m / 60) ms)"
    by (simp add: list_all2_lengthD)
  then have "fst ` set ?rows = {d. Some d \<in> set ds}" by (rule keys_dropna_zip)
  moreover have "set (map fst (groupby_sum [] ?rows)) = fst ` set ?rows"
    by (rule groupby_sum_rows)
  ultimately have a: "set (date_col ?out) = {d. Some d \<in> set ds}"
    by (simp add: derive_columns_fields)
  have "distinct (map fst (groupby_sum [] ?rows))" by (rule groupby_sum_rows)
  then have b: "distinct (date_col ?out)" by (simp add: derive_columns_fields)
  have "sorted_wrt date_less (map fst (groupby_sum [] ?rows))" by (rule groupby_sum_rows)
  then have c: "sorted_wrt date_less (date_col ?out)" by (simp add: derive_columns_fields)
  from r a b c show ?thesis by blast
qed

theorem augment_data_one_row_per_date_witness:
  "augment_data parse_iso example_table = (Inr example_nights, example_table_after) \<and>
   set (date_col example_nights) = {d. Some d \<in> set example_dates} \<and>
   distinct (date_col example_nights) \<and>
   sorted_wrt date_less (date_col example_nights)"
proof -
  from augment_data_one_row_per_date
    [OF example_columns example_cells_read example_assigned]
  obtain out df' where "augment_data parse_iso example_table = (Inr out, df')"
    and p: "set (date_col out) = {d. Some d \<in> set example_dates}"
      "distinct (date_col out)" "sorted_wrt date_less (date_col out)"
    by blast
  with example_run have "out = example_nights" by simp
  with p example_run show ?thesis by blast
qed



section \<open>Augmentation: the rolling windows\<close>






end
